theory Spec2Isabelle
  imports
    Complex_Main
    "HOL-Library.Char_ord"
    "HOL-Library.List_Lexorder"
    "HOL-Library.Product_Lexorder"
    "HOL-Library.Word"
begin

section \<open>Food delivery marketplace analysis: the order table and its derived columns\<close>

text \<open>
  The script \<^verbatim>\<open>analysis_visualizations.py\<close> loads one CSV table of orders, appends derived
  columns, and builds six grouped summary tables, each of which is handed to the plotting
  library. The embedding below follows the script statement by statement.

  Conventions of the embedding:
  \<^item> a pandas float column holds \<^typ>\<open>real\<close> numbers: cells are finite and present, and
    arithmetic on finite values is exact (rounding and overflow of binary floating point
    are not modelled); the fee, discount and refund columns are float columns;
  \<^item> the order value column is either an integer column (every cell an integer literal,
    held as a 64-bit signed integer) or a float column, as \<^verbatim>\<open>read_csv\<close> infers it;
  \<^item> a float computed by the script may be infinite or undefined (division by zero);
  \<^item> a text column holds \<^typ>\<open>string\<close>; strings are ordered lexicographically by character
    code, as Python orders them;
  \<^item> a data frame is the list of its rows, in index order;
  \<^item> a timestamp is the value that \<^verbatim>\<open>pd.to_datetime\<close> has parsed.
\<close>

record timestamp =
  ts_year :: nat
  ts_month :: nat
  ts_day :: nat
  ts_hour :: nat
  ts_minute :: nat

text \<open>
  A numeric cell as the file gives it: an integer literal or a decimal literal. A column
  whose cells are all integer literals is read as \<^verbatim>\<open>int64\<close>; a column with at least one
  decimal literal is read as \<^verbatim>\<open>float64\<close>, its integer cells converted.
\<close>

datatype num = Int64 "64 word" | Float64 real

fun num_val :: "num \<Rightarrow> real" where
  "num_val (Int64 w) = real_of_int (sint w)"
| "num_val (Float64 x) = x"

fun is_int64 :: "num \<Rightarrow> bool" where
  "is_int64 (Int64 w) = True"
| "is_int64 (Float64 x) = False"

text \<open>The integer held by a cell of an integer column (the second equation is never used there).\<close>

fun int64_of :: "num \<Rightarrow> 64 word" where
  "int64_of (Int64 w) = w"
| "int64_of (Float64 x) = 0"

text \<open>
  A float as the script computes it: a finite number, an infinity, or the undefined value.
\<close>

datatype xfloat = Finite real | PosInf | NegInf | NaN

text \<open>One row of \<^verbatim>\<open>food_orders.csv\<close>, under the normalised column names the script uses.\<close>

record order =
  order_id :: nat
  restaurant_id :: string
  order_date_and_time :: timestamp
  delivery_date_and_time :: timestamp
  order_value :: num
  delivery_fee :: real
  payment_method :: string
  discounts_and_offers :: real
  commission_fee :: real
  payment_processing_fee :: real
  refunds_chargebacks :: real

text \<open>
  The key of a monthly period: \<^verbatim>\<open>dt.to_period("M").astype(str)\<close> renders it as
  \<^verbatim>\<open>YYYY-MM\<close>, whose string order is the lexicographic order of the pair (year, month).
\<close>

type_synonym month_key = "nat \<times> nat"

definition to_period_M :: "timestamp \<Rightarrow> month_key" where
  "to_period_M t = (ts_year t, ts_month t)"

text \<open>Lines 45 to 49.\<close>

definition discount_band :: "real \<Rightarrow> string" where
  "discount_band d =
     (if d = 0 then ''No Discount''
      else if d \<le> 5 then ''Low (1-5)''
      else if d \<le> 15 then ''Mid (6-15)''
      else ''High (15+)'')"

text \<open>Lines 176 to 180.\<close>

definition order_band :: "real \<Rightarrow> string" where
  "order_band v =
     (if v < 15 then ''Low (< $15)''
      else if v < 30 then ''Mid ($15-30)''
      else if v < 50 then ''High ($30-50)''
      else ''Premium (> $50)'')"

text \<open>
  The table after all column assignments (lines 29 to 50 and line 181). The column
  \<^verbatim>\<open>order_band\<close> is assigned just before the fifth report; no earlier report reads it, so
  the enriched row carries it from the start. The two band columns are named
  \<open>discount_band_col\<close> and \<open>order_band_col\<close>, the classifier functions keep the plain names.
\<close>

record enriched = order +
  order_date :: timestamp
  delivery_date :: timestamp
  order_month :: month_key
  contribution_margin :: real
  profitable :: string
  discount_band_col :: string
  order_band_col :: string

definition margin_of :: "order \<Rightarrow> real" where
  "margin_of r =
     commission_fee r + delivery_fee r
     - payment_processing_fee r
     - discounts_and_offers r
     - refunds_chargebacks r"

definition profit_label :: "real \<Rightarrow> string" where
  "profit_label x = (if x > 0 then ''Profitable'' else ''Loss-Making'')"

definition enrich :: "order \<Rightarrow> enriched" where
  "enrich r =
     \<lparr> order_id = order_id r,
       restaurant_id = restaurant_id r,
       order_date_and_time = order_date_and_time r,
       delivery_date_and_time = delivery_date_and_time r,
       order_value = order_value r,
       delivery_fee = delivery_fee r,
       payment_method = payment_method r,
       discounts_and_offers = discounts_and_offers r,
       commission_fee = commission_fee r,
       payment_processing_fee = payment_processing_fee r,
       refunds_chargebacks = refunds_chargebacks r,
       order_date = order_date_and_time r,
       delivery_date = delivery_date_and_time r,
       order_month = to_period_M (order_date_and_time r),
       contribution_margin = margin_of r,
       profitable = profit_label (margin_of r),
       discount_band_col = discount_band (discounts_and_offers r),
       order_band_col = order_band (num_val (order_value r)) \<rparr>"

definition derive :: "order list \<Rightarrow> enriched list" where
  "derive tbl = map enrich tbl"

section \<open>Grouping and reducers\<close>

text \<open>
  \<^verbatim>\<open>df.groupby(key)\<close> with the defaults: one group per distinct key, groups in ascending key
  order, the rows of a group in table order.
\<close>

definition groupby :: "('r \<Rightarrow> 'k::linorder) \<Rightarrow> 'r list \<Rightarrow> ('k \<times> 'r list) list" where
  "groupby key df =
     map (\<lambda>k. (k, filter (\<lambda>r. key r = k) df)) (sort (remdups (map key df)))"

text \<open>
  The reducer \<^verbatim>\<open>"mean"\<close>. It is applied to groups only, which are never empty
  (lemma \<open>groupby_nonempty\<close> below), so the quotient is never taken by zero.
\<close>

definition mean :: "real list \<Rightarrow> real" where
  "mean xs = sum_list xs / real (length xs)"

text \<open>
  The reducer \<^verbatim>\<open>"sum"\<close> on the order value column. The data type of the column decides the
  arithmetic: on an integer column the group sum is a 64-bit integer sum, which wraps
  around; on a float column it is a float sum. The first argument is the whole column,
  the second the cells of the group.
\<close>

definition col_sum :: "num list \<Rightarrow> num list \<Rightarrow> num" where
  "col_sum column cells =
     (if list_all is_int64 column then Int64 (sum_list (map int64_of cells))
      else Float64 (sum_list (map num_val cells)))"

text \<open>
  Float division of two finite numbers (\<^verbatim>\<open>x / y\<close> on columns): a zero divisor gives an
  infinity with the sign of the dividend, and zero by zero is undefined.
\<close>

definition true_div :: "real \<Rightarrow> real \<Rightarrow> xfloat" where
  "true_div x y =
     (if y \<noteq> 0 then Finite (x / y)
      else if x > 0 then PosInf
      else if x < 0 then NegInf
      else NaN)"

text \<open>Float addition: opposite infinities cancel to the undefined value, which absorbs.\<close>

fun fadd :: "xfloat \<Rightarrow> xfloat \<Rightarrow> xfloat" where
  "fadd (Finite a) (Finite b) = Finite (a + b)"
| "fadd NaN v = NaN"
| "fadd v NaN = NaN"
| "fadd PosInf NegInf = NaN"
| "fadd NegInf PosInf = NaN"
| "fadd PosInf v = PosInf"
| "fadd v PosInf = PosInf"
| "fadd NegInf v = NegInf"
| "fadd v NegInf = NegInf"

text \<open>Division of a float sum by a positive count, and multiplication by a finite factor.\<close>

fun fdiv_count :: "xfloat \<Rightarrow> nat \<Rightarrow> xfloat" where
  "fdiv_count (Finite s) n = Finite (s / real n)"
| "fdiv_count v n = v"

fun fmul :: "xfloat \<Rightarrow> real \<Rightarrow> xfloat" where
  "fmul (Finite a) c = Finite (a * c)"
| "fmul NaN c = NaN"
| "fmul PosInf c = (if c > 0 then PosInf else if c < 0 then NegInf else NaN)"
| "fmul NegInf c = (if c > 0 then NegInf else if c < 0 then PosInf else NaN)"

text \<open>
  \<^verbatim>\<open>Series.mean()\<close> with the default \<^verbatim>\<open>skipna=True\<close>: undefined values are left out of
  the sum and of the count; infinities are not. With no value left the mean is undefined.
\<close>

definition nansum :: "xfloat list \<Rightarrow> xfloat" where
  "nansum xs = foldr fadd (filter (\<lambda>v. v \<noteq> NaN) xs) (Finite 0)"

definition nanmean :: "xfloat list \<Rightarrow> xfloat" where
  "nanmean xs =
     (let count = length (filter (\<lambda>v. v \<noteq> NaN) xs)
      in if count = 0 then NaN else fdiv_count (nansum xs) count)"



text \<open>
  \<^verbatim>\<open>sort_values(col)\<close> ascending. The library leaves the mutual order of rows with equal
  keys to its default sorting algorithm; the embedding keeps them in table order. The
  monthly table and the discount-band table are sorted on pairwise distinct keys, where
  every sorting algorithm gives the same table.
\<close>

definition sort_values :: "('r \<Rightarrow> 'k::linorder) \<Rightarrow> 'r list \<Rightarrow> 'r list" where
  "sort_values col rows = sort_key col rows"

text \<open>
  \<^verbatim>\<open>nlargest(n, col)\<close> with the default \<^verbatim>\<open>keep="first"\<close>: the \<open>n\<close> rows of largest value in
  descending order, earlier rows first among equal values.
\<close>

definition nlargest :: "nat \<Rightarrow> ('r \<Rightarrow> real) \<Rightarrow> 'r list \<Rightarrow> 'r list" where
  "nlargest n col rows = take n (sort_key (\<lambda>r. - col r) rows)"

section \<open>The six summary tables\<close>

text \<open>Report 1 (lines 55 to 58): columns payment method, average order value, total orders.\<close>

definition aov_pay :: "enriched list \<Rightarrow> (string \<times> real \<times> nat) list" where
  "aov_pay df =
     sort_values (\<lambda>(k, avg_order_value, total_orders). avg_order_value)
       (map (\<lambda>(k, g). (k, mean (map (\<lambda>r. num_val (order_value r)) g), length g))
            (groupby payment_method df))"

text \<open>Report 2 (lines 77 to 80): columns order month, total orders, total GMV.\<close>

definition monthly :: "enriched list \<Rightarrow> (month_key \<times> nat \<times> num) list" where
  "monthly df =
     sort_values fst
       (map (\<lambda>(k, g). (k, length g, col_sum (map order_value df) (map order_value g)))
            (groupby order_month df))"

text \<open>
  Report 3 (lines 105 to 109): columns profitable, order count, total margin, average
  order value.
\<close>

definition profit_summary :: "enriched list \<Rightarrow> (string \<times> nat \<times> real \<times> real) list" where
  "profit_summary df =
     map (\<lambda>(k, g). (k, length g, sum_list (map contribution_margin g),
                      mean (map (\<lambda>r. num_val (order_value r)) g)))
         (groupby profitable df)"

text \<open>
  Report 4 (lines 141 to 148): columns discount band, average order value, average
  contribution, order count, and the helper column \<^verbatim>\<open>sort\<close> looked up in \<^verbatim>\<open>order_map\<close>.
  A label absent from the dictionary would map to a missing value, which
  \<^verbatim>\<open>sort_values\<close> places last.
\<close>

definition order_map :: "string \<rightharpoonup> nat" where
  "order_map =
     map_of [(''No Discount'', 0), (''Low (1-5)'', 1), (''Mid (6-15)'', 2), (''High (15+)'', 3)]"

definition na_last :: "nat option \<Rightarrow> nat \<times> nat" where
  "na_last c = (case c of Some i \<Rightarrow> (0, i) | None \<Rightarrow> (1, 0))"

definition disc_impact :: "enriched list \<Rightarrow> (string \<times> real \<times> real \<times> nat \<times> nat option) list" where
  "disc_impact df =
     sort_values (\<lambda>(k, avg_order_value, avg_contribution, order_count, sort_col). na_last sort_col)
       (map (\<lambda>(k, g). (k, mean (map (\<lambda>r. num_val (order_value r)) g),
                        mean (map contribution_margin g), length g, order_map k))
            (groupby discount_band_col df))"

text \<open>
  Report 5 (lines 182 to 188): columns order band, delivery fee percentage, average margin,
  count. The custom reducer divides each row's delivery fee by the same row's order value,
  takes the mean of the quotients and multiplies it by 100. \<^verbatim>\<open>reindex(band_order)\<close> emits
  one row per label of \<^verbatim>\<open>band_order\<close>; a label without a group gets an all-missing row,
  here \<open>None\<close>.
\<close>

definition band_order :: "string list" where
  "band_order = [''Low (< $15)'', ''Mid ($15-30)'', ''High ($30-50)'', ''Premium (> $50)'']"

definition delivery_fee_pct :: "enriched list \<Rightarrow> xfloat" where
  "delivery_fee_pct g =
     fmul (nanmean (map (\<lambda>r. true_div (delivery_fee r) (num_val (order_value r))) g)) 100"

definition reindex :: "'k list \<Rightarrow> ('k \<times> 'v) list \<Rightarrow> ('k \<times> 'v option) list" where
  "reindex labels rows = map (\<lambda>k. (k, map_of rows k)) labels"

definition band_data :: "enriched list \<Rightarrow> (string \<times> (xfloat \<times> real \<times> nat) option) list" where
  "band_data df =
     reindex band_order
       (map (\<lambda>(k, g). (k, delivery_fee_pct g, mean (map contribution_margin g), length g))
            (groupby order_band_col df))"

text \<open>
  Report 6 (lines 216 to 222): columns restaurant, total orders, refund orders, total
  refund, refund rate.
\<close>

definition rest_refund :: "enriched list \<Rightarrow> (string \<times> nat \<times> nat \<times> real \<times> real) list" where
  "rest_refund df =
     map (\<lambda>(k, g).
            let total_orders = length g;
                refund_orders = length (filter (\<lambda>r. refunds_chargebacks r > 0) g);
                total_refund = sum_list (map refunds_chargebacks g)
            in (k, total_orders, refund_orders, total_refund,
                real refund_orders / real total_orders * 100))
         (groupby restaurant_id df)"

definition total_orders_of :: "string \<times> nat \<times> nat \<times> real \<times> real \<Rightarrow> nat" where
  "total_orders_of row = fst (snd row)"

definition refund_rate_of :: "string \<times> nat \<times> nat \<times> real \<times> real \<Rightarrow> real" where
  "refund_rate_of row = snd (snd (snd (snd row)))"

text \<open>
  Line 222 works on the grouped table alone: it keeps the restaurants with at least five
  orders and takes the ten largest refund rates.
\<close>

definition rank_refund ::
  "(string \<times> nat \<times> nat \<times> real \<times> real) list \<Rightarrow> (string \<times> nat \<times> nat \<times> real \<times> real) list" where
  "rank_refund grouped =
     nlargest 10 refund_rate_of (filter (\<lambda>row. total_orders_of row \<ge> 5) grouped)"

definition top_refund :: "enriched list \<Rightarrow> (string \<times> nat \<times> nat \<times> real \<times> real) list" where
  "top_refund df = rank_refund (rest_refund df)"

section \<open>Sample rows\<close>

text \<open>
  The two orders of the end-to-end example: order A with commission 5, delivery fee 3,
  processing fee 1, no discount, no refund, and order B with commission 2, delivery fee 1,
  processing fee 0.5, discount 10, no refund. The remaining cells are filled in.
\<close>

definition sample_time :: timestamp where
  "sample_time = \<lparr> ts_year = 2024, ts_month = 1, ts_day = 5, ts_hour = 12, ts_minute = 30 \<rparr>"

definition order_A :: order where
  "order_A =
     \<lparr> order_id = 1, restaurant_id = ''R1'',
       order_date_and_time = sample_time, delivery_date_and_time = sample_time,
       order_value = Float64 40, delivery_fee = 3, payment_method = ''Credit Card'',
       discounts_and_offers = 0, commission_fee = 5, payment_processing_fee = 1,
       refunds_chargebacks = 0 \<rparr>"

definition order_B :: order where
  "order_B =
     \<lparr> order_id = 2, restaurant_id = ''R2'',
       order_date_and_time = sample_time, delivery_date_and_time = sample_time,
       order_value = Float64 25, delivery_fee = 1, payment_method = ''Cash on Delivery'',
       discounts_and_offers = 10, commission_fee = 2, payment_processing_fee = 1 / 2,
       refunds_chargebacks = 0 \<rparr>"

text \<open>
  A table for the refund ranking: restaurant R2 with four orders, all refunded, R1 with five
  orders of which two carry a refund, R3 with five orders of which one carries a refund.
  The rows of R2 come first in the file.
\<close>

definition refund_order :: "string \<Rightarrow> real \<Rightarrow> order" where
  "refund_order rid refund = order_A\<lparr>restaurant_id := rid, refunds_chargebacks := refund\<rparr>"

definition refund_table :: "order list" where
  "refund_table =
     [refund_order ''R2'' 2, refund_order ''R2'' 2, refund_order ''R2'' 2, refund_order ''R2'' 2,
      refund_order ''R1'' 1, refund_order ''R1'' 0, refund_order ''R1'' 2, refund_order ''R1'' 0,
      refund_order ''R1'' 0,
      refund_order ''R3'' 4, refund_order ''R3'' 0, refund_order ''R3'' 0, refund_order ''R3'' 0,
      refund_order ''R3'' 0]"

text \<open>
  Tables for the delivery fee percentage. In the first, the band High holds order A
  (order value 40, fee 3) and an order of value 32 with fee 4. In the second, the band Low
  holds an order of value 0 with fee 0 and an order of value 10 with fee 3. In the third,
  the band Low holds an order of value 0 with fee 3.
\<close>

definition band_table :: "order list" where
  "band_table = [order_A, order_B, order_A\<lparr>order_value := Int64 32, delivery_fee := 4\<rparr>]"

definition zero_value_table :: "order list" where
  "zero_value_table =
     [order_A\<lparr>order_value := Float64 0, delivery_fee := 0\<rparr>,
      order_A\<lparr>order_value := Float64 10, delivery_fee := 3\<rparr>]"

definition zero_value_fee_table :: "order list" where
  "zero_value_fee_table = [order_A\<lparr>order_value := Float64 0\<rparr>]"

text \<open>
  Two orders of one month in an integer order value column, of values
  9223372036854775807 and 1.
\<close>

definition big_order :: order where
  "big_order = order_A\<lparr>order_value := Int64 9223372036854775807\<rparr>"

definition unit_order :: order where
  "unit_order = order_A\<lparr>order_value := Int64 1\<rparr>"

text \<open>The grouped table of the ranking example, with the totals and rates it names.\<close>

definition example_grouped :: "(string \<times> nat \<times> nat \<times> real \<times> real) list" where
  "example_grouped =
     [(''R1'', 10, 3, 3, 30), (''R2'', 4, 4, 8, 100), (''R3'', 6, 1, 4, 20)]"

section \<open>Facts about grouping\<close>

lemma groupby_keys: "map fst (groupby key df) = sort (remdups (map key df))"
  by (simp add: groupby_def comp_def)

lemma groupby_nonempty: "(k, g) \<in> set (groupby key df) \<Longrightarrow> g \<noteq> []"
  by (auto simp add: groupby_def filter_empty_conv)

lemma groupby_agg:
  "map (\<lambda>(k, g). (k, F k g)) (groupby key df) =
     map (\<lambda>k. (k, F k (filter (\<lambda>r. key r = k) df))) (sort (remdups (map key df)))"
  by (simp add: groupby_def comp_def)

lemma map_of_agg:
  "map_of (map (\<lambda>(k, g). (k, F k g)) (groupby key df)) k =
     (if k \<in> key ` set df then Some (F k (filter (\<lambda>r. key r = k) df)) else None)"
  unfolding groupby_agg by (auto simp add: map_of_map_restrict restrict_map_def)

lemma monthly_rows:
  "monthly df =
     map (\<lambda>m. (m, length (filter (\<lambda>r. order_month r = m) df),
                   col_sum (map order_value df)
                     (map order_value (filter (\<lambda>r. order_month r = m) df))))
         (sort (remdups (map order_month df)))"
proof -
  let ?rows = "map (\<lambda>(k, g). (k, length g, col_sum (map order_value df) (map order_value g)))
                   (groupby order_month df)"
  have keys: "map fst ?rows = sort (remdups (map order_month df))"
    by (simp add: groupby_def comp_def)
  have "sorted (map fst ?rows)"
    unfolding keys by simp
  then have "sort_key fst ?rows = ?rows"
    by (rule sort_key_id_if_sorted)
  then show ?thesis
    by (simp add: monthly_def sort_values_def
          groupby_agg [where F = "\<lambda>k g. (length g, col_sum (map order_value df)
                                                 (map order_value g))"])
qed

lemma insort_key_map:
  assumes "h a = g (f a)" and "\<And>x. x \<in> set xs \<Longrightarrow> h x = g (f x)"
  shows "map f (insort_key h a xs) = insort_key g (f a) (map f xs)"
  using assms by (induction xs) simp_all

lemma sort_key_map:
  assumes "\<And>x. x \<in> set xs \<Longrightarrow> h x = g (f x)"
  shows "map f (sort_key h xs) = sort_key g (map f xs)"
  using assms
proof (induction xs)
  case Nil
  show ?case by simp
next
  case (Cons a xs)
  have "map f (insort_key h a (sort_key h xs)) = insort_key g (f a) (map f (sort_key h xs))"
    by (rule insort_key_map) (simp_all add: Cons.prems)
  also have "map f (sort_key h xs) = sort_key g (map f xs)"
    by (rule Cons.IH) (simp add: Cons.prems)
  finally show ?case by simp
qed

lemma sort_key_filter_unique:
  assumes inj: "inj_on g (set all)" and srt: "sorted (map g all)" and dst: "distinct all"
    and sub: "set ks \<subseteq> set all" and dks: "distinct ks"
  shows "sort_key g ks = filter (\<lambda>b. b \<in> set ks) all"
proof -
  let ?ts = "filter (\<lambda>b. b \<in> set ks) all"
  have ts_set: "set ?ts = set ks"
    using sub by auto
  have inj_ks: "inj_on g (set ks)"
    using inj sub by (rule inj_on_subset)
  have "inj_on g (set (sort_key g ks) \<union> set ?ts)"
    using inj_ks ts_set by simp
  moreover have "sorted (map g (sort_key g ks))"
    by (rule sorted_sort_key)
  moreover have "distinct (map g (sort_key g ks))"
    using dks inj_ks by (simp add: distinct_map)
  moreover have "sorted (map g ?ts)"
    using srt by (rule sorted_filter)
  moreover have "distinct (map g ?ts)"
    using dst inj_ks ts_set by (simp add: distinct_map)
  moreover have "set (sort_key g ks) = set ?ts"
    using ts_set by simp
  ultimately show ?thesis
    by (rule map_sorted_distinct_set_unique)
qed

lemma disc_impact_keys:
  "map fst (disc_impact df) =
     sort_key (\<lambda>k. na_last (order_map k)) (sort (remdups (map discount_band_col df)))"
proof -
  let ?rows = "map (\<lambda>(k, g). (k, mean (map (\<lambda>r. num_val (order_value r)) g),
                        mean (map contribution_margin g), length g, order_map k))
                   (groupby discount_band_col df)"
  have keys: "map fst ?rows = sort (remdups (map discount_band_col df))"
    by (simp add: groupby_def comp_def)
  have "map fst (sort_key (\<lambda>(k, avg_order_value, avg_contribution, order_count, sort_col).
                             na_last sort_col) ?rows)
        = sort_key (\<lambda>k. na_last (order_map k)) (map fst ?rows)"
    by (rule sort_key_map) auto
  then show ?thesis
    unfolding keys by (simp add: disc_impact_def sort_values_def)
qed

lemma discount_band_range:
  "discount_band d \<in> set [''No Discount'', ''Low (1-5)'', ''Mid (6-15)'', ''High (15+)'']"
  by (simp add: discount_band_def)

lemma discount_band_col_derive:
  "set (map discount_band_col (derive tbl))
     \<subseteq> set [''No Discount'', ''Low (1-5)'', ''Mid (6-15)'', ''High (15+)'']"
proof -
  have "map discount_band_col (derive tbl) = map (\<lambda>r. discount_band (discounts_and_offers r)) tbl"
    by (simp add: derive_def enrich_def)
  then show ?thesis
    using discount_band_range by (auto simp only: set_map)
qed

lemma order_map_sorted:
  "inj_on (\<lambda>k. na_last (order_map k))
      (set [''No Discount'', ''Low (1-5)'', ''Mid (6-15)'', ''High (15+)''])
   \<and> sorted (map (\<lambda>k. na_last (order_map k))
        [''No Discount'', ''Low (1-5)'', ''Mid (6-15)'', ''High (15+)''])
   \<and> distinct [''No Discount'', ''Low (1-5)'', ''Mid (6-15)'', ''High (15+)'']"
  by (simp add: order_map_def na_last_def)

lemma disc_impact_bands_present:
  "map fst (disc_impact (derive tbl)) =
     filter (\<lambda>b. b \<in> discount_band_col ` set (derive tbl))
       [''No Discount'', ''Low (1-5)'', ''Mid (6-15)'', ''High (15+)'']"
proof -
  let ?ks = "sort (remdups (map discount_band_col (derive tbl)))"
  have "set ?ks \<subseteq> set [''No Discount'', ''Low (1-5)'', ''Mid (6-15)'', ''High (15+)'']"
    using discount_band_col_derive [of tbl] by (simp only: set_sort set_remdups)
  moreover have "distinct ?ks"
    by simp
  ultimately have "sort_key (\<lambda>k. na_last (order_map k)) ?ks =
      filter (\<lambda>b. b \<in> set ?ks) [''No Discount'', ''Low (1-5)'', ''Mid (6-15)'', ''High (15+)'']"
    using order_map_sorted by (intro sort_key_filter_unique) blast+
  then show ?thesis
    by (simp only: disc_impact_keys set_sort set_remdups set_map)
qed

lemma band_data_keys: "map fst (band_data df) = band_order"
  by (simp add: band_data_def reindex_def comp_def)

lemma band_data_row:
  assumes "b \<in> set band_order"
  shows "map_of (band_data df) b =
     Some (if b \<in> order_band_col ` set df
           then Some (delivery_fee_pct (filter (\<lambda>r. order_band_col r = b) df),
                      mean (map contribution_margin (filter (\<lambda>r. order_band_col r = b) df)),
                      length (filter (\<lambda>r. order_band_col r = b) df))
           else None)"
proof -
  have "map_of (band_data df) b =
          Some (map_of (map (\<lambda>(k, g). (k, delivery_fee_pct g,
                                          mean (map contribution_margin g), length g))
                            (groupby order_band_col df)) b)"
    using assms unfolding band_data_def reindex_def
    by (simp add: map_of_map_restrict restrict_map_def)
  then show ?thesis
    by (simp add: map_of_agg [where F = "\<lambda>k g. (delivery_fee_pct g,
                                             mean (map contribution_margin g), length g)"])
qed


lemma rest_refund_keys: "map fst (rest_refund df) = sort (remdups (map restaurant_id df))"
  by (simp add: rest_refund_def groupby_def comp_def Let_def)

section \<open>Facts about integer sums\<close>

lemma sint_sum_list:
  "sint (sum_list ws :: 64 word) = signed_take_bit 63 (sum_list (map sint ws))"
proof (induction ws)
  case Nil
  show ?case by simp
next
  case (Cons w ws)
  have "sint (w + sum_list ws) = signed_take_bit 63 (sint w + sint (sum_list ws))"
    by (simp add: sint_word_ariths)
  also have "\<dots> = signed_take_bit 63 (sint w + sum_list (map sint ws))"
  proof -
    have "signed_take_bit 63 (sint w + signed_take_bit 63 (sum_list (map sint ws)))
            = signed_take_bit (63::nat) (signed_take_bit 63 (sint w)
                + signed_take_bit 63 (signed_take_bit 63 (sum_list (map sint ws))))"
      by (simp only: signed_take_bit_add)
    also have "\<dots> = signed_take_bit (63::nat) (signed_take_bit 63 (sint w)
                + signed_take_bit 63 (sum_list (map sint ws)))"
      by (simp only: signed_take_bit_signed_take_bit min.idem)
    also have "\<dots> = signed_take_bit 63 (sint w + sum_list (map sint ws))"
      by (simp only: signed_take_bit_add)
    finally show ?thesis
      by (simp only: Cons.IH)
  qed
  finally show ?case by simp
qed

lemma int64_sum_exact:
  assumes "- (2 ^ 63) \<le> sum_list (map sint ws)" "sum_list (map sint ws) < 2 ^ 63"
  shows "sint (sum_list ws :: 64 word) = sum_list (map sint ws)"
  unfolding sint_sum_list using assms by (simp add: signed_take_bit_int_eq_self)

lemma int64_cells:
  assumes "list_all is_int64 cells"
  shows "map num_val cells = map (\<lambda>c. real_of_int (sint (int64_of c))) cells"
  using assms
proof (induction cells)
  case Nil
  show ?case by simp
next
  case (Cons c cells)
  then show ?case by (cases c) simp_all
qed

lemma col_sum_exact:
  assumes sub: "set cells \<subseteq> set column"
    and ok: "\<not> list_all is_int64 column
             \<or> (- (2 ^ 63) \<le> sum_list (map (\<lambda>c. sint (int64_of c)) cells)
                \<and> sum_list (map (\<lambda>c. sint (int64_of c)) cells) < 2 ^ 63)"
  shows "num_val (col_sum column cells) = sum_list (map num_val cells)"
proof (cases "list_all is_int64 column")
  case False
  then show ?thesis by (simp add: col_sum_def)
next
  case True
  then have ints: "list_all is_int64 cells"
    using sub by (auto simp add: list_all_iff)
  from True ok have rng: "- (2 ^ 63) \<le> sum_list (map sint (map int64_of cells))"
     "sum_list (map sint (map int64_of cells)) < 2 ^ 63"
    by (simp_all add: comp_def)
  have "num_val (col_sum column cells) = real_of_int (sint (sum_list (map int64_of cells)))"
    using True by (simp add: col_sum_def)
  also have "\<dots> = real_of_int (sum_list (map sint (map int64_of cells)))"
    using rng by (simp only: int64_sum_exact)
  also have "\<dots> = sum_list (map real_of_int (map sint (map int64_of cells)))"
    by (simp only: sum_list_of_int)
  also have "\<dots> = sum_list (map (\<lambda>c. real_of_int (sint (int64_of c))) cells)"
    by (simp add: comp_def)
  also have "\<dots> = sum_list (map num_val cells)"
    using ints by (simp only: int64_cells)
  finally show ?thesis .
qed


lemma monthly_two:
  assumes "ts_year (order_date_and_time a) = ts_year (order_date_and_time b)"
    and "ts_month (order_date_and_time a) = ts_month (order_date_and_time b)"
  shows "monthly (derive [a, b]) =
           [((ts_year (order_date_and_time a), ts_month (order_date_and_time a)), 2,
             col_sum [order_value a, order_value b] [order_value a, order_value b])]"
  using assms by (simp add: monthly_rows derive_def enrich_def to_period_M_def)

section \<open>Facts about float reducers\<close>




section \<open>Facts about ranking\<close>

lemma filter_take_prefix:
  "filter P (take n xs) = take (length (filter P (take n xs))) (filter P xs)"
proof -
  have "filter P xs = filter P (take n xs) @ filter P (drop n xs)"
    by (metis append_take_drop_id filter_append)
  then show ?thesis by simp
qed

lemma nlargest_subset: "set (nlargest n col rows) \<subseteq> set rows"
  unfolding nlargest_def by (rule subset_trans [OF set_take_subset]) simp

lemma nlargest_length: "length (nlargest n col rows) = min n (length rows)"
  by (simp add: nlargest_def min.commute)

lemma nlargest_descending: "sorted (map (\<lambda>r. - col r) (nlargest n col rows))"
proof -
  have "sorted (map (\<lambda>r. - col r) (sort_key (\<lambda>r. - col r) rows))"
    by (rule sorted_sort_key)
  then have "sorted (take n (map (\<lambda>r. - col r) (sort_key (\<lambda>r. - col r) rows)))"
    by (rule sorted_wrt_take)
  then show ?thesis
    by (simp add: nlargest_def take_map)
qed

lemma nlargest_top:
  assumes a: "a \<in> set (nlargest n col rows)" and b: "b \<in> set rows"
    and nb: "b \<notin> set (nlargest n col rows)"
  shows "col b \<le> col a"
proof -
  let ?ys = "sort_key (\<lambda>r. - col r) rows"
  have "sorted (map (\<lambda>r. - col r) ?ys)"
    by (rule sorted_sort_key)
  then have "sorted (map (\<lambda>r. - col r) (take n ?ys) @ map (\<lambda>r. - col r) (drop n ?ys))"
    by (simp only: map_append [symmetric] append_take_drop_id)
  then have le: "\<forall>x \<in> set (take n ?ys). \<forall>y \<in> set (drop n ?ys). col y \<le> col x"
    unfolding sorted_append by auto
  have "set ?ys = set (take n ?ys) \<union> set (drop n ?ys)"
    by (simp only: set_append [symmetric] append_take_drop_id)
  then have "b \<in> set (take n ?ys) \<union> set (drop n ?ys)"
    using b by simp
  then have "b \<in> set (drop n ?ys)"
    using nb by (simp add: nlargest_def)
  with le a show ?thesis
    by (simp add: nlargest_def)
qed

lemma nlargest_stable:
  "\<exists>m. filter (\<lambda>r. col r = q) (nlargest n col rows) = take m (filter (\<lambda>r. col r = q) rows)"
proof -
  let ?f = "\<lambda>r. - col r"
  have "filter (\<lambda>r. col r = q) (take n (sort_key ?f rows))
          = take (length (filter (\<lambda>r. col r = q) (take n (sort_key ?f rows))))
              (filter (\<lambda>r. col r = q) (sort_key ?f rows))"
    by (rule filter_take_prefix)
  moreover have "filter (\<lambda>r. col r = q) (sort_key ?f rows) = filter (\<lambda>r. col r = q) rows"
    using sort_key_stable [of ?f "- q" rows] by simp
  ultimately show ?thesis
    unfolding nlargest_def by metis
qed

lemma insort_key_lex:
  assumes "sorted_wrt (\<lambda>a b. f a < f b \<or> (f a = f b \<and> R a b)) ys"
    and "\<forall>y \<in> set ys. R a y"
  shows "sorted_wrt (\<lambda>a b. f a < f b \<or> (f a = f b \<and> R a b)) (insort_key f a ys)"
  using assms
proof (induction ys)
  case Nil
  show ?case by simp
next
  case (Cons y ys)
  show ?case
  proof (cases "f a \<le> f y")
    case True
    have "f a < f z \<or> (f a = f z \<and> R a z)" if "z \<in> set (y # ys)" for z
    proof -
      have "f y \<le> f z"
        using that Cons.prems(1) by auto
      with True have "f a \<le> f z" by simp
      moreover have "R a z"
        using that Cons.prems(2) by blast
      ultimately show ?thesis by auto
    qed
    with True Cons.prems(1) show ?thesis by simp
  next
    case False
    have "sorted_wrt (\<lambda>a b. f a < f b \<or> (f a = f b \<and> R a b)) (insort_key f a ys)"
      using Cons.IH Cons.prems by simp
    with False Cons.prems(1) show ?thesis
      by (auto simp add: set_insort_key)
  qed
qed

lemma sort_key_lex:
  assumes "sorted_wrt R xs"
  shows "sorted_wrt (\<lambda>a b. f a < f b \<or> (f a = f b \<and> R a b)) (sort_key f xs)"
  using assms
proof (induction xs)
  case Nil
  show ?case by simp
next
  case (Cons a xs)
  have "sorted_wrt (\<lambda>a b. f a < f b \<or> (f a = f b \<and> R a b)) (insort_key f a (sort_key f xs))"
    by (rule insort_key_lex) (use Cons in simp_all)
  then show ?case by simp
qed

lemma rest_refund_total:
  assumes "row \<in> set (rest_refund df)"
  shows "total_orders_of row = length (filter (\<lambda>r. restaurant_id r = fst row) df)"
  using assms by (auto simp add: rest_refund_def groupby_def total_orders_of_def Let_def)

lemma rest_refund_ascending: "sorted_wrt (\<lambda>a b. fst a < fst b) (rest_refund df)"
proof -
  have "sorted (map fst (rest_refund df))" "distinct (map fst (rest_refund df))"
    unfolding rest_refund_keys by simp_all
  then have "sorted_wrt (<) (map fst (rest_refund df))"
    by (simp add: strict_sorted_iff)
  then show ?thesis
    by (simp add: sorted_wrt_map)
qed

section \<open>The summary tables of the sample rows\<close>

lemma refund_order_cols:
  "restaurant_id (enrich (refund_order rid x)) = rid"
  "refunds_chargebacks (enrich (refund_order rid x)) = x"
  by (simp_all add: enrich_def refund_order_def)

lemma rest_refund_refund_table:
  "rest_refund (derive refund_table) =
     [(''R1'', 5, 2, 3, 40), (''R2'', 4, 4, 8, 100), (''R3'', 5, 1, 4, 20)]"
  by (simp add: rest_refund_def groupby_def derive_def refund_table_def refund_order_cols)

lemma top_refund_refund_table:
  "top_refund (derive refund_table) = [(''R1'', 5, 2, 3, 40), (''R3'', 5, 1, 4, 20)]"
  unfolding top_refund_def rest_refund_refund_table
  by (simp add: rank_refund_def nlargest_def total_orders_of_def refund_rate_of_def)

lemma delivery_fee_pct_zero_value_table:
  "delivery_fee_pct (derive zero_value_table) = Finite 30"
  by (simp add: delivery_fee_pct_def nanmean_def nansum_def true_div_def derive_def
        zero_value_table_def enrich_def order_A_def)

lemma delivery_fee_pct_zero_value_fee_table:
  "delivery_fee_pct (derive zero_value_fee_table) = PosInf"
  by (simp add: delivery_fee_pct_def nanmean_def nansum_def true_div_def derive_def
        zero_value_fee_table_def enrich_def order_A_def)



lemma band_data_band_table:
  "band_data (derive band_table) =
     [(''Low (< $15)'', None), (''Mid ($15-30)'', Some (Finite 4, - 15 / 2, 1)),
      (''High ($30-50)'', Some (Finite 10, 15 / 2, 2)), (''Premium (> $50)'', None)]"
  by (simp add: band_data_def reindex_def band_order_def groupby_def derive_def enrich_def
        band_table_def order_A_def order_B_def order_band_def margin_of_def mean_def
        delivery_fee_pct_def nanmean_def nansum_def true_div_def)

section \<open>Derived columns\<close>



text \<open>
  C2. A row is labelled Profitable exactly when its contribution margin is positive; the
  label is otherwise Loss-Making, in particular at a margin of exactly zero.
\<close>

theorem profitable_iff_positive_margin:
  "map profitable (derive tbl) =
     map (\<lambda>r. if contribution_margin r > 0 then ''Profitable'' else ''Loss-Making'')
         (derive tbl)
   \<and> (profitable (enrich r) = ''Profitable'' \<longleftrightarrow> contribution_margin (enrich r) > 0)
   \<and> (profitable (enrich r) = ''Loss-Making'' \<longleftrightarrow> \<not> contribution_margin (enrich r) > 0)
   \<and> (contribution_margin (enrich r) = 0 \<longrightarrow> profitable (enrich r) = ''Loss-Making'')"
  by (simp add: derive_def enrich_def profit_label_def)

theorem profitable_iff_positive_margin_witness:
  "contribution_margin (enrich (order_A\<lparr>commission_fee := 0, delivery_fee := 1\<rparr>)) = 0
   \<and> profitable (enrich (order_A\<lparr>commission_fee := 0, delivery_fee := 1\<rparr>)) = ''Loss-Making''
   \<and> profitable (enrich order_A) = ''Profitable''
   \<and> profitable (enrich order_B) = ''Loss-Making''"
  using profitable_iff_positive_margin
          [of "[]" "order_A\<lparr>commission_fee := 0, delivery_fee := 1\<rparr>"]
        profitable_iff_positive_margin [of "[]" order_A]
        profitable_iff_positive_margin [of "[]" order_B]
  by (simp add: enrich_def margin_of_def order_A_def order_B_def)

section \<open>Band classifiers\<close>

text \<open>
  C4. For a non-negative discount \<open>d\<close> the classifier returns exactly one of the four
  labels: No Discount when \<open>d = 0\<close>, Low when \<open>0 < d \<le> 5\<close>, Mid when \<open>5 < d \<le> 15\<close>,
  High when \<open>15 < d\<close>. The four conditions exclude one another and cover every
  non-negative value.
\<close>

theorem discount_band_partition:
  assumes "0 \<le> d"
  shows "(discount_band d = ''No Discount'' \<longleftrightarrow> d = 0)
       \<and> (discount_band d = ''Low (1-5)'' \<longleftrightarrow> 0 < d \<and> d \<le> 5)
       \<and> (discount_band d = ''Mid (6-15)'' \<longleftrightarrow> 5 < d \<and> d \<le> 15)
       \<and> (discount_band d = ''High (15+)'' \<longleftrightarrow> 15 < d)
       \<and> discount_band d \<in> {''No Discount'', ''Low (1-5)'', ''Mid (6-15)'', ''High (15+)''}
       \<and> distinct [''No Discount'', ''Low (1-5)'', ''Mid (6-15)'', ''High (15+)'']"
  using assms by (auto simp add: discount_band_def)

theorem discount_band_partition_witness:
  "(0::real) \<le> 5
   \<and> discount_band 0 = ''No Discount'' \<and> discount_band 5 = ''Low (1-5)''
   \<and> discount_band (11 / 2) = ''Mid (6-15)'' \<and> discount_band 15 = ''Mid (6-15)''
   \<and> discount_band 16 = ''High (15+)''"
  using discount_band_partition [of 0] discount_band_partition [of 5]
        discount_band_partition [of "11 / 2"] discount_band_partition [of 15]
        discount_band_partition [of 16]
  by simp

text \<open>
  C5. For a non-negative order value \<open>v\<close> the classifier returns exactly one of the four
  labels: Low when \<open>v < 15\<close>, Mid when \<open>15 \<le> v < 30\<close>, High when \<open>30 \<le> v < 50\<close>,
  Premium when \<open>50 \<le> v\<close>; the value 50 is Premium, not High.
\<close>

theorem order_band_partition:
  assumes "0 \<le> v"
  shows "(order_band v = ''Low (< $15)'' \<longleftrightarrow> v < 15)
       \<and> (order_band v = ''Mid ($15-30)'' \<longleftrightarrow> 15 \<le> v \<and> v < 30)
       \<and> (order_band v = ''High ($30-50)'' \<longleftrightarrow> 30 \<le> v \<and> v < 50)
       \<and> (order_band v = ''Premium (> $50)'' \<longleftrightarrow> 50 \<le> v)
       \<and> order_band v \<in> set band_order
       \<and> distinct band_order
       \<and> order_band 50 = ''Premium (> $50)''"
  using assms by (auto simp add: order_band_def band_order_def)

theorem order_band_partition_witness:
  "(0::real) \<le> 50
   \<and> order_band 0 = ''Low (< $15)'' \<and> order_band 15 = ''Mid ($15-30)''
   \<and> order_band 30 = ''High ($30-50)'' \<and> order_band 50 = ''Premium (> $50)''
   \<and> order_band 50 \<noteq> ''High ($30-50)''"
  using order_band_partition [of 0] order_band_partition [of 15]
        order_band_partition [of 30] order_band_partition [of 50]
  by simp

text \<open>
  C10. The classifiers are defined on every number. A negative discount gets the label
  Low (1-5), a negative order value gets the label Low (< $15), and whatever the input,
  the result is one of the four labels of its classifier.
\<close>

theorem band_classifiers_total:
  "(d < 0 \<longrightarrow> discount_band d = ''Low (1-5)'')
   \<and> (v < 0 \<longrightarrow> order_band v = ''Low (< $15)'')
   \<and> discount_band d \<in> {''No Discount'', ''Low (1-5)'', ''Mid (6-15)'', ''High (15+)''}
   \<and> order_band v \<in> set band_order"
  by (simp add: discount_band_def order_band_def band_order_def)

theorem band_classifiers_total_witness:
  "(- 3 :: real) < 0 \<and> discount_band (- 3) = ''Low (1-5)''
   \<and> (- 1 / 2 :: real) < 0 \<and> order_band (- 1 / 2) = ''Low (< $15)''
   \<and> discount_band (- 3) \<noteq> ''No Discount''"
  using band_classifiers_total [of "- 3" "- 1 / 2"]
  by simp

section \<open>Monthly trend\<close>

text \<open>
  C8, as stated, at two orders of one calendar month in an integer order value column, of
  values 9223372036854775807 and 1: the monthly table has the single row of that month
  with a total of 2 orders, but its GMV is -9223372036854775808, since the 64-bit integer
  sum wraps around; the sum of the two order values is 9223372036854775808.
\<close>

theorem monthly_int64_sum_wraps:
  "order_value big_order = Int64 9223372036854775807
   \<and> order_value unit_order = Int64 1
   \<and> order_month (enrich big_order) = order_month (enrich unit_order)
   \<and> monthly (derive [big_order, unit_order])
       = [((2024, 1), 2, Int64 (- 9223372036854775808))]
   \<and> num_val (Int64 (- 9223372036854775808)) = - 9223372036854775808
   \<and> num_val (order_value big_order) + num_val (order_value unit_order) = 9223372036854775808
   \<and> num_val (Int64 (- 9223372036854775808))
       \<noteq> num_val (order_value big_order) + num_val (order_value unit_order)"
  by (simp add: monthly_rows derive_def enrich_def to_period_M_def col_sum_def
        big_order_def unit_order_def order_A_def sample_time_def)

text \<open>
  C8 (amended). Two orders whose order timestamps lie in the same calendar month give a
  monthly table of a single row, with a total of 2 orders and as GMV the sum of the two
  order values in the arithmetic of the column: in an integer column the 64-bit integer
  sum, in a float column the float sum. That GMV equals the sum of the two order values
  whenever the column is a float column or the sum lies in the 64-bit signed range;
  otherwise it is that sum wrapped around into the 64-bit signed range. In general the monthly table has
  one row per distinct order month, in ascending order, and each row carries the number
  of rows of that month and the column sum of their order values, which equals their sum
  under the same condition.
\<close>

theorem monthly_one_row_per_month:
  "(ts_year (order_date_and_time a) = ts_year (order_date_and_time b)
      \<and> ts_month (order_date_and_time a) = ts_month (order_date_and_time b)
      \<and> order_value a = Int64 x \<and> order_value b = Int64 y
     \<longrightarrow> monthly (derive [a, b]) =
           [((ts_year (order_date_and_time a), ts_month (order_date_and_time a)),
             2, Int64 (x + y))])
   \<and> (ts_year (order_date_and_time a) = ts_year (order_date_and_time b)
      \<and> ts_month (order_date_and_time a) = ts_month (order_date_and_time b)
      \<and> \<not> (is_int64 (order_value a) \<and> is_int64 (order_value b))
     \<longrightarrow> monthly (derive [a, b]) =
           [((ts_year (order_date_and_time a), ts_month (order_date_and_time a)),
             2, Float64 (num_val (order_value a) + num_val (order_value b)))])
   \<and> (ts_year (order_date_and_time a) = ts_year (order_date_and_time b)
      \<and> ts_month (order_date_and_time a) = ts_month (order_date_and_time b)
      \<and> (\<not> (is_int64 (order_value a) \<and> is_int64 (order_value b))
          \<or> (- (2 ^ 63) \<le> sint (int64_of (order_value a)) + sint (int64_of (order_value b))
              \<and> sint (int64_of (order_value a)) + sint (int64_of (order_value b)) < 2 ^ 63))
     \<longrightarrow> (\<exists>total_gmv.
            monthly (derive [a, b]) =
              [((ts_year (order_date_and_time a), ts_month (order_date_and_time a)),
                2, total_gmv)]
            \<and> num_val total_gmv = num_val (order_value a) + num_val (order_value b)))
   \<and> map fst (monthly df) = sort (remdups (map order_month df))
   \<and> distinct (map fst (monthly df))
   \<and> set (map fst (monthly df)) = order_month ` set df
   \<and> map snd (monthly df) =
       map (\<lambda>m. (length (filter (\<lambda>r. order_month r = m) df),
                  col_sum (map order_value df)
                    (map order_value (filter (\<lambda>r. order_month r = m) df))))
           (map fst (monthly df))
   \<and> (set cells \<subseteq> set column
        \<and> (\<not> list_all is_int64 column
            \<or> (- (2 ^ 63) \<le> sum_list (map (\<lambda>c. sint (int64_of c)) cells)
                \<and> sum_list (map (\<lambda>c. sint (int64_of c)) cells) < 2 ^ 63))
       \<longrightarrow> num_val (col_sum column cells) = sum_list (map num_val cells))"
proof -
  let ?m = "(ts_year (order_date_and_time a), ts_month (order_date_and_time a))"
  let ?col = "[order_value a, order_value b]"
  have ints: "monthly (derive [a, b]) = [(?m, 2, Int64 (x + y))]"
    if "ts_year (order_date_and_time a) = ts_year (order_date_and_time b)"
       "ts_month (order_date_and_time a) = ts_month (order_date_and_time b)"
       "order_value a = Int64 x" "order_value b = Int64 y"
    using that by (simp add: monthly_two col_sum_def)
  have floats: "monthly (derive [a, b]) =
        [(?m, 2, Float64 (num_val (order_value a) + num_val (order_value b)))]"
    if "ts_year (order_date_and_time a) = ts_year (order_date_and_time b)"
       "ts_month (order_date_and_time a) = ts_month (order_date_and_time b)"
       "\<not> (is_int64 (order_value a) \<and> is_int64 (order_value b))"
    using that by (simp add: monthly_two col_sum_def)
  have exact: "\<exists>total_gmv. monthly (derive [a, b]) = [(?m, 2, total_gmv)]
            \<and> num_val total_gmv = num_val (order_value a) + num_val (order_value b)"
    if m: "ts_year (order_date_and_time a) = ts_year (order_date_and_time b)"
       "ts_month (order_date_and_time a) = ts_month (order_date_and_time b)"
      and ok: "\<not> (is_int64 (order_value a) \<and> is_int64 (order_value b))
          \<or> (- (2 ^ 63) \<le> sint (int64_of (order_value a)) + sint (int64_of (order_value b))
              \<and> sint (int64_of (order_value a)) + sint (int64_of (order_value b)) < 2 ^ 63)"
  proof -
    have "num_val (col_sum ?col ?col) = sum_list (map num_val ?col)"
      by (rule col_sum_exact) (use ok in simp_all)
    then have "num_val (col_sum ?col ?col) = num_val (order_value a) + num_val (order_value b)"
      by simp
    with monthly_two [OF m] show ?thesis
      by blast
  qed
  have keys: "map fst (monthly df) = sort (remdups (map order_month df))"
    by (simp add: monthly_rows comp_def)
  have vals: "map snd (monthly df) =
       map (\<lambda>m. (length (filter (\<lambda>r. order_month r = m) df),
                  col_sum (map order_value df)
                    (map order_value (filter (\<lambda>r. order_month r = m) df))))
           (map fst (monthly df))"
    unfolding keys by (simp add: monthly_rows comp_def)
  have dist: "distinct (map fst (monthly df))"
    and kset: "set (map fst (monthly df)) = order_month ` set df"
    unfolding keys by simp_all
  have gen: "num_val (col_sum column cells) = sum_list (map num_val cells)"
    if "set cells \<subseteq> set column
        \<and> (\<not> list_all is_int64 column
            \<or> (- (2 ^ 63) \<le> sum_list (map (\<lambda>c. sint (int64_of c)) cells)
                \<and> sum_list (map (\<lambda>c. sint (int64_of c)) cells) < 2 ^ 63))"
    using that by (intro col_sum_exact) simp_all
  show ?thesis
  proof (intro conjI impI)
    show "map fst (monthly df) = sort (remdups (map order_month df))"
      by (rule keys)
    show "distinct (map fst (monthly df))"
      by (rule dist)
    show "set (map fst (monthly df)) = order_month ` set df"
      by (rule kset)
    show "map snd (monthly df) =
       map (\<lambda>m. (length (filter (\<lambda>r. order_month r = m) df),
                  col_sum (map order_value df)
                    (map order_value (filter (\<lambda>r. order_month r = m) df))))
           (map fst (monthly df))"
      by (rule vals)
  qed (use ints floats exact gen in \<open>(assumption | blast)+\<close>)
qed

theorem monthly_one_row_per_month_witness:
  "ts_year (order_date_and_time order_A) = ts_year (order_date_and_time order_B)
   \<and> ts_month (order_date_and_time order_A) = ts_month (order_date_and_time order_B)
   \<and> order_value order_A = Float64 40 \<and> order_value order_B = Float64 25
   \<and> monthly (derive [order_A, order_B]) = [((2024, 1), 2, Float64 65)]
   \<and> monthly (derive [order_A\<lparr>order_value := Int64 40\<rparr>, order_B\<lparr>order_value := Int64 25\<rparr>])
       = [((2024, 1), 2, Int64 65)]
   \<and> num_val (Int64 65) = 65
   \<and> monthly (derive [big_order, unit_order]) = [((2024, 1), 2, Int64 (9223372036854775807 + 1))]"
proof -
  have t: "ts_year (order_date_and_time order_A) = ts_year (order_date_and_time order_B)"
       "ts_month (order_date_and_time order_A) = ts_month (order_date_and_time order_B)"
       "ts_year (order_date_and_time order_A) = 2024"
       "ts_month (order_date_and_time order_A) = 1"
    by (simp_all add: order_A_def order_B_def sample_time_def)
  have v: "order_value order_A = Float64 40" "order_value order_B = Float64 25"
    by (simp_all add: order_A_def order_B_def)
  from monthly_one_row_per_month [of order_A order_B 0 0 "[]" "[]" "[]"] t v
  have f: "monthly (derive [order_A, order_B]) = [((2024, 1), 2, Float64 65)]"
    by simp
  from monthly_one_row_per_month
         [of "order_A\<lparr>order_value := Int64 40\<rparr>" "order_B\<lparr>order_value := Int64 25\<rparr>" 40 25
             "[]" "[]" "[]"] t
  have i: "monthly (derive [order_A\<lparr>order_value := Int64 40\<rparr>, order_B\<lparr>order_value := Int64 25\<rparr>])
       = [((2024, 1), 2, Int64 65)]"
    by (simp add: order_A_def order_B_def sample_time_def)
  from monthly_one_row_per_month
         [of big_order unit_order 9223372036854775807 1 "[]" "[]" "[]"]
  have w: "monthly (derive [big_order, unit_order])
             = [((2024, 1), 2, Int64 (9223372036854775807 + 1))]"
    by (simp add: big_order_def unit_order_def order_A_def sample_time_def)
  have n: "num_val (Int64 65) = 65"
    by simp
  from t(1,2) v f i w n show ?thesis
    by (intro conjI)
qed

section \<open>Banded tables\<close>

text \<open>
  C3, as stated, at a table with the single order A: the discount-band table is built by
  grouping and then sorting on the helper column; it is not reindexed, so it has one row
  (No Discount) and not four.
\<close>

theorem disc_impact_drops_empty_bands:
  "disc_impact (derive [order_A]) = [(''No Discount'', 40, 7, 1, Some 0)]
   \<and> length (disc_impact (derive [order_A])) \<noteq> 4"
  by (simp add: disc_impact_def sort_values_def groupby_def derive_def enrich_def order_A_def
     discount_band_def margin_of_def mean_def order_map_def)

text \<open>
  C3 (amended). The order-band table always has exactly four rows, in the order of
  \<^verbatim>\<open>band_order\<close>; a band without input rows appears with all reducer cells missing, a band
  with input rows appears with its reducer values. The discount-band table of a derived
  table has one row for each discount band that occurs in the input, and only those, in the
  order No Discount, Low, Mid, High; it has at most four rows.
\<close>

theorem banded_tables_rows:
  "map fst (band_data df) = band_order
   \<and> length (band_data df) = 4
   \<and> (\<forall>b \<in> set band_order.
         b \<notin> order_band_col ` set df \<longrightarrow> map_of (band_data df) b = Some None)
   \<and> (\<forall>b \<in> set band_order.
         b \<in> order_band_col ` set df \<longrightarrow> (\<exists>row. map_of (band_data df) b = Some (Some row)))
   \<and> map fst (disc_impact (derive tbl)) =
       filter (\<lambda>b. b \<in> discount_band_col ` set (derive tbl))
         [''No Discount'', ''Low (1-5)'', ''Mid (6-15)'', ''High (15+)'']
   \<and> length (disc_impact (derive tbl)) \<le> 4"
proof -
  have keys: "map fst (band_data df) = band_order"
    by (rule band_data_keys)
  have "length (map fst (band_data df)) = 4"
    unfolding keys by (simp add: band_order_def)
  then have len: "length (band_data df) = 4"
    by simp
  have absent: "\<forall>b \<in> set band_order.
         b \<notin> order_band_col ` set df \<longrightarrow> map_of (band_data df) b = Some None"
    by (simp add: band_data_row)
  have present: "\<forall>b \<in> set band_order.
         b \<in> order_band_col ` set df \<longrightarrow> (\<exists>row. map_of (band_data df) b = Some (Some row))"
    by (simp add: band_data_row)
  have "length (map fst (disc_impact (derive tbl))) \<le> 4"
    unfolding disc_impact_bands_present
    by (rule order_trans [OF length_filter_le]) simp
  then have "length (disc_impact (derive tbl)) \<le> 4"
    by simp
  with keys len absent present disc_impact_bands_present [of tbl] show ?thesis
    by blast
qed

theorem banded_tables_rows_witness:
  "''Low (< $15)'' \<in> set band_order
   \<and> ''Low (< $15)'' \<notin> order_band_col ` set (derive [order_A, order_B])
   \<and> map_of (band_data (derive [order_A, order_B])) ''Low (< $15)'' = Some None
   \<and> ''Mid ($15-30)'' \<in> set band_order
   \<and> ''Mid ($15-30)'' \<in> order_band_col ` set (derive [order_A, order_B])
   \<and> (\<exists>row. map_of (band_data (derive [order_A, order_B])) ''Mid ($15-30)'' = Some (Some row))
   \<and> map fst (band_data (derive [order_A, order_B])) = band_order
   \<and> map fst (disc_impact (derive [order_A, order_B])) = [''No Discount'', ''Mid (6-15)'']"
proof -
  have a: "''Low (< $15)'' \<in> set band_order" "''Mid ($15-30)'' \<in> set band_order"
    by (simp_all add: band_order_def)
  have b: "order_band_col ` set (derive [order_A, order_B]) = {''High ($30-50)'', ''Mid ($15-30)''}"
    by (simp add: derive_def enrich_def order_A_def order_B_def order_band_def)
  have c: "discount_band_col ` set (derive [order_A, order_B]) = {''No Discount'', ''Mid (6-15)''}"
    by (simp add: derive_def enrich_def order_A_def order_B_def discount_band_def)
  have d: "''Low (< $15)'' \<notin> order_band_col ` set (derive [order_A, order_B])"
    unfolding b by simp
  have e: "''Mid ($15-30)'' \<in> order_band_col ` set (derive [order_A, order_B])"
    unfolding b by simp
  have f: "filter (\<lambda>b. b \<in> discount_band_col ` set (derive [order_A, order_B]))
         [''No Discount'', ''Low (1-5)'', ''Mid (6-15)'', ''High (15+)'']
       = [''No Discount'', ''Mid (6-15)'']"
    unfolding c by simp
  show ?thesis
    using banded_tables_rows [of "derive [order_A, order_B]" "[order_A, order_B]"] a d e f
    by simp
qed

section \<open>Rate reducers\<close>




section \<open>Refund ranking\<close>

text \<open>
  C6. The ranking of restaurants by refund rate keeps only rows of the grouped table with
  at least five orders, so a restaurant with fewer than five orders in the input never
  appears. It returns the ten rows of largest refund rate (all of them when fewer than ten
  qualify), in descending order of the rate: a qualifying row that is left out never has a
  larger rate than a row that is kept. Rows of equal rate keep the order in which the
  grouped table lists them (an initial segment of them is kept, in table order); the
  grouped table lists restaurants in ascending identifier. On the grouped table
  R1 (total 10, rate 30), R2 (total 4, rate 100), R3 (total 6, rate 20), R2 is left out
  and R1 comes before R3.
\<close>

theorem top_refund_ranking:
  "(\<forall>row \<in> set (rank_refund grouped). row \<in> set grouped \<and> 5 \<le> total_orders_of row)
   \<and> (\<forall>row \<in> set (top_refund df).
         row \<in> set (rest_refund df)
         \<and> 5 \<le> length (filter (\<lambda>r. restaurant_id r = fst row) df))
   \<and> length (rank_refund grouped)
       = min 10 (length (filter (\<lambda>row. 5 \<le> total_orders_of row) grouped))
   \<and> sorted (map (\<lambda>row. - refund_rate_of row) (rank_refund grouped))
   \<and> (\<forall>a \<in> set (rank_refund grouped). \<forall>b \<in> set grouped.
         5 \<le> total_orders_of b \<and> b \<notin> set (rank_refund grouped)
         \<longrightarrow> refund_rate_of b \<le> refund_rate_of a)
   \<and> (\<exists>m. filter (\<lambda>row. refund_rate_of row = q) (rank_refund grouped)
           = take m (filter (\<lambda>row. refund_rate_of row = q)
                       (filter (\<lambda>row. 5 \<le> total_orders_of row) grouped)))
   \<and> sorted_wrt (\<lambda>a b. refund_rate_of b < refund_rate_of a
                      \<or> (refund_rate_of a = refund_rate_of b \<and> fst a < fst b))
        (top_refund df)
   \<and> rank_refund example_grouped = [(''R1'', 10, 3, 3, 30), (''R3'', 6, 1, 4, 20)]"
proof -
  let ?elig = "\<lambda>row. 5 \<le> total_orders_of row"
  have sub: "set (rank_refund g) \<subseteq> set (filter ?elig g)" for g
    unfolding rank_refund_def by (rule nlargest_subset)
  have p1: "\<forall>row \<in> set (rank_refund grouped). row \<in> set grouped \<and> 5 \<le> total_orders_of row"
    using sub [of grouped] by auto
  have p2: "\<forall>row \<in> set (top_refund df).
         row \<in> set (rest_refund df)
         \<and> 5 \<le> length (filter (\<lambda>r. restaurant_id r = fst row) df)"
  proof
    fix row assume "row \<in> set (top_refund df)"
    then have "row \<in> set (rest_refund df)" "5 \<le> total_orders_of row"
      using sub [of "rest_refund df"] by (auto simp add: top_refund_def)
    then show "row \<in> set (rest_refund df)
         \<and> 5 \<le> length (filter (\<lambda>r. restaurant_id r = fst row) df)"
      by (simp add: rest_refund_total)
  qed
  have p3: "length (rank_refund grouped) = min 10 (length (filter ?elig grouped))"
    unfolding rank_refund_def by (rule nlargest_length)
  have p4: "sorted (map (\<lambda>row. - refund_rate_of row) (rank_refund grouped))"
    unfolding rank_refund_def by (rule nlargest_descending)
  have p5: "\<forall>a \<in> set (rank_refund grouped). \<forall>b \<in> set grouped.
         5 \<le> total_orders_of b \<and> b \<notin> set (rank_refund grouped)
         \<longrightarrow> refund_rate_of b \<le> refund_rate_of a"
  proof (intro ballI impI)
    fix a b
    assume a: "a \<in> set (rank_refund grouped)" and b: "b \<in> set grouped"
      and c: "5 \<le> total_orders_of b \<and> b \<notin> set (rank_refund grouped)"
    have "b \<in> set (filter ?elig grouped)"
      using b c by simp
    moreover have "a \<in> set (nlargest 10 refund_rate_of (filter ?elig grouped))"
      using a by (simp only: rank_refund_def)
    moreover have "b \<notin> set (nlargest 10 refund_rate_of (filter ?elig grouped))"
      using c by (simp only: rank_refund_def) simp
    ultimately show "refund_rate_of b \<le> refund_rate_of a"
      using nlargest_top [of a 10 refund_rate_of "filter ?elig grouped" b] by blast
  qed
  have p6: "\<exists>m. filter (\<lambda>row. refund_rate_of row = q) (rank_refund grouped)
           = take m (filter (\<lambda>row. refund_rate_of row = q) (filter ?elig grouped))"
    unfolding rank_refund_def by (rule nlargest_stable)
  have "sorted_wrt (\<lambda>a b. fst a < fst b) (filter ?elig (rest_refund df))"
    using rest_refund_ascending by (rule sorted_wrt_filter)
  then have "sorted_wrt (\<lambda>a b. - refund_rate_of a < - refund_rate_of b
                      \<or> (- refund_rate_of a = - refund_rate_of b \<and> fst a < fst b))
        (sort_key (\<lambda>row. - refund_rate_of row) (filter ?elig (rest_refund df)))"
    by (rule sort_key_lex)
  then have "sorted_wrt (\<lambda>a b. - refund_rate_of a < - refund_rate_of b
                      \<or> (- refund_rate_of a = - refund_rate_of b \<and> fst a < fst b))
        (top_refund df)"
    unfolding top_refund_def rank_refund_def nlargest_def by (rule sorted_wrt_take)
  then have p7: "sorted_wrt (\<lambda>a b. refund_rate_of b < refund_rate_of a
                      \<or> (refund_rate_of a = refund_rate_of b \<and> fst a < fst b))
        (top_refund df)"
    by simp
  have p8: "rank_refund example_grouped = [(''R1'', 10, 3, 3, 30), (''R3'', 6, 1, 4, 20)]"
    by (simp add: rank_refund_def example_grouped_def nlargest_def total_orders_of_def
          refund_rate_of_def)
  from p1 p2 p3 p4 p5 p6 p7 p8 show ?thesis
    by blast
qed

theorem top_refund_ranking_witness:
  "(''R1'', 10, 3, 3, 30) \<in> set (rank_refund example_grouped)
   \<and> (''R2'', 4, 4, 8, 100) \<in> set example_grouped
   \<and> (''R2'', 4, 4, 8, 100) \<notin> set (rank_refund example_grouped)
   \<and> (''R3'', 6, 1, 4, 20) \<in> set (rank_refund example_grouped)
   \<and> rank_refund example_grouped = [(''R1'', 10, 3, 3, 30), (''R3'', 6, 1, 4, 20)]
   \<and> (''R1'', 5, 2, 3, 40) \<in> set (top_refund (derive refund_table))
   \<and> 5 \<le> length (filter (\<lambda>r. restaurant_id r = ''R1'') (derive refund_table))
   \<and> rank_refund [(''R7'', 5, 1, 1, 20), (''R4'', 6, 3, 3, 50), (''R5'', 5, 1, 1, 20)]
       = [(''R4'', 6, 3, 3, 50), (''R7'', 5, 1, 1, 20), (''R5'', 5, 1, 1, 20)]"
proof -
  have r1: "(''R1'', 5, 2, 3, 40) \<in> set (top_refund (derive refund_table))"
    by (simp add: top_refund_refund_table)
  have "5 \<le> length (filter (\<lambda>r. restaurant_id r = fst (''R1'', 5::nat, 2::nat, 3::real, 40::real))
                       (derive refund_table))"
    using top_refund_ranking [of example_grouped "derive refund_table" 30] r1 by blast
  then have n: "5 \<le> length (filter (\<lambda>r. restaurant_id r = ''R1'') (derive refund_table))"
    by simp
  have ex: "rank_refund example_grouped = [(''R1'', 10, 3, 3, 30), (''R3'', 6, 1, 4, 20)]"
    using top_refund_ranking [of example_grouped "derive refund_table" 30] by blast
  have tie: "rank_refund [(''R7'', 5, 1, 1, 20), (''R4'', 6, 3, 3, 50), (''R5'', 5, 1, 1, 20)]
       = [(''R4'', 6, 3, 3, 50), (''R7'', 5, 1, 1, 20), (''R5'', 5, 1, 1, 20)]"
    by (simp add: rank_refund_def nlargest_def total_orders_of_def refund_rate_of_def)
  have mem: "(''R2'', 4, 4, 8, 100) \<in> set example_grouped"
    by (simp add: example_grouped_def)
  show ?thesis
    using r1 n tie mem by (simp add: ex)
qed

end
